theory Spec2Isabelle
  imports Main "HOL-Library.Sublist" "HOL-Library.AList"
begin

section \<open>The retry scheduler of logic.js (\<^verbatim>\<open>src/unnamed/part_002\<close>)\<close>

text \<open>
  An asynchronous call either resolves with a value, of which the callers here only test
  the truthiness, or throws (its promise rejects) with an error.
\<close>

datatype outcome = Resolved bool | Thrown string

text \<open>
  What one call of \<open>tryWithDelays\<close> does, in the order it does it: the evaluation of
  \<open>validationFn()\<close> with its answer, each \<open>waitFor(delay)\<close>, each call of \<open>action()\<close>
  with its outcome, and each \<open>console.error\<close> of the \<open>catch\<close> block (with the delay that
  the message quotes).
\<close>

datatype event = GuardChecked bool | Slept nat | Invoked outcome | ErrorLogged nat string

record 'w run =
  result :: bool
  world :: 'w
  trace :: "event list"

text \<open>
  \<open>waitFor(ms)\<close> suspends the caller on a timer. While it is suspended the browser runs
  whatever else is queued (other timers, navigation, page scripts); \<open>host ms w\<close> is the
  world the caller finds when it resumes.
\<close>

definition waitFor :: "(nat \<Rightarrow> 'w \<Rightarrow> 'w) \<Rightarrow> nat \<Rightarrow> 'w \<Rightarrow> 'w" where
  "waitFor host ms w = host ms w"

text \<open>
  The \<open>for (const delay of delaysMs)\<close> loop of \<open>tryWithDelays\<close> (lines 51 to 62): sleep,
  call the action inside \<open>try\<close>, return true on a truthy result, log a thrown error,
  go on with the next delay, return false when the delays are used up.
\<close>

fun tryLoop ::
  "('w \<Rightarrow> outcome \<times> 'w) \<Rightarrow> (nat \<Rightarrow> 'w \<Rightarrow> 'w) \<Rightarrow> nat list \<Rightarrow> 'w \<Rightarrow> 'w run" where
  "tryLoop action host [] w = \<lparr>result = False, world = w, trace = []\<rparr>"
| "tryLoop action host (delay # rest) w =
     (case action (waitFor host delay w) of
        (Resolved success, w') \<Rightarrow>
          if success then \<lparr>result = True, world = w', trace = [Slept delay, Invoked (Resolved success)]\<rparr>
          else (let r = tryLoop action host rest w'
                in r\<lparr>trace := Slept delay # Invoked (Resolved success) # trace r\<rparr>)
      | (Thrown err, w') \<Rightarrow>
          (let r = tryLoop action host rest w'
           in r\<lparr>trace := Slept delay # Invoked (Thrown err) # ErrorLogged delay err # trace r\<rparr>))"

text \<open>
  \<open>tryWithDelays(action, delaysMs, validationFn = null)\<close>: the guard is an optional
  predicate of the world (\<open>None\<close> is the default \<open>null\<close>); it is read once, on entry.
\<close>

definition tryWithDelays ::
  "('w \<Rightarrow> outcome \<times> 'w) \<Rightarrow> nat list \<Rightarrow> ('w \<Rightarrow> bool) option \<Rightarrow> (nat \<Rightarrow> 'w \<Rightarrow> 'w) \<Rightarrow> 'w \<Rightarrow> 'w run" where
  "tryWithDelays action delaysMs validationFn host w =
     (case validationFn of
        None \<Rightarrow> tryLoop action host delaysMs w
      | Some g \<Rightarrow>
          if \<not> g w then \<lparr>result = False, world = w, trace = [GuardChecked False]\<rparr>
          else (let r = tryLoop action host delaysMs w
                in r\<lparr>trace := GuardChecked True # trace r\<rparr>))"

subsection \<open>Reading a trace\<close>

fun invocations :: "event list \<Rightarrow> nat" where
  "invocations [] = 0"
| "invocations (Invoked r # tr) = Suc (invocations tr)"
| "invocations (e # tr) = invocations tr"

fun slept_total :: "event list \<Rightarrow> nat" where
  "slept_total [] = 0"
| "slept_total (Slept d # tr) = d + slept_total tr"
| "slept_total (e # tr) = slept_total tr"

fun guard_checks :: "event list \<Rightarrow> nat" where
  "guard_checks [] = 0"
| "guard_checks (GuardChecked b # tr) = Suc (guard_checks tr)"
| "guard_checks (e # tr) = guard_checks tr"

text \<open>
  The sleeps and the calls of a trace in their order: \<open>Some d\<close> for a sleep of \<open>d\<close>
  milliseconds, \<open>None\<close> for a call of the action.
\<close>

fun timeline :: "event list \<Rightarrow> nat option list" where
  "timeline [] = []"
| "timeline (Slept d # tr) = Some d # timeline tr"
| "timeline (Invoked r # tr) = None # timeline tr"
| "timeline (e # tr) = timeline tr"

text \<open>The errors thrown by the calls, and the errors written to the console.\<close>

fun thrown_errors :: "event list \<Rightarrow> string list" where
  "thrown_errors [] = []"
| "thrown_errors (Invoked (Thrown err) # tr) = err # thrown_errors tr"
| "thrown_errors (e # tr) = thrown_errors tr"

fun logged_errors :: "event list \<Rightarrow> string list" where
  "logged_errors [] = []"
| "logged_errors (ErrorLogged d err # tr) = err # logged_errors tr"
| "logged_errors (e # tr) = logged_errors tr"


definition guard_passes :: "('w \<Rightarrow> bool) option \<Rightarrow> 'w \<Rightarrow> bool" where
  "guard_passes validationFn w = (case validationFn of None \<Rightarrow> True | Some g \<Rightarrow> g w)"

section \<open>The page as logic.js sees it\<close>

subsection \<open>localStorage\<close>

text \<open>
  The browser's \<open>localStorage\<close>: a string-to-string store. Its two calls can throw:
  every access throws \<open>SecurityError\<close> when the origin is denied storage, and \<open>setItem\<close>
  throws \<open>QuotaExceededError\<close> when the store takes no more data.
\<close>

datatype dom_exception = SecurityError | QuotaExceededError

record storage =
  items :: "string \<rightharpoonup> string"
  access_denied :: bool
  quota_exceeded :: bool

definition getItem :: "string \<Rightarrow> storage \<Rightarrow> dom_exception + string option" where
  "getItem key st = (if access_denied st then Inl SecurityError else Inr (items st key))"

definition setItem :: "string \<Rightarrow> string \<Rightarrow> storage \<Rightarrow> dom_exception + storage" where
  "setItem key v st =
     (if access_denied st then Inl SecurityError
      else if quota_exceeded st then Inl QuotaExceededError
      else Inr (st\<lparr>items := (items st)(key \<mapsto> v)\<rparr>))"

definition storage_writable :: "storage \<Rightarrow> bool" where
  "storage_writable st = (\<not> access_denied st \<and> \<not> quota_exceeded st)"

subsection \<open>The page\<close>

text \<open>
  A callback or detached call is named by what it runs: \<open>RunWithDelays i\<close> is
  \<open>() => this.runWithDelays()\<close> of the handler object with identity \<open>i\<close>.
\<close>

datatype callback = RunWithDelays nat

text \<open>
  The parts of the browser that logic.js reads and writes. \<open>navigation_entries\<close> is the
  answer of \<open>performance.getEntriesByType("navigation")\<close>, each entry by its \<open>type\<close>
  (\<open>None\<close>: the call throws). \<open>load_listeners\<close> are the listeners added to the window's
  \<open>load\<close> event, \<open>started_calls\<close> the asynchronous calls that were started and not
  awaited, \<open>observers\<close> the handlers (by identity) whose own \<open>MutationObserver\<close> watches
  \<open>document.body\<close>, \<open>console\<close> the lines written by \<open>console.error\<close>.
\<close>

record page =
  localStorage :: storage
  navigation_entries :: "string list option"
  location_href :: string
  location_hostname :: string
  readyState :: string
  load_listeners :: "callback list"
  started_calls :: "callback list"
  observers :: "nat list"
  console :: "string list"

definition getStorageItem :: "string \<Rightarrow> bool \<Rightarrow> page \<Rightarrow> bool \<times> page" where
  "getStorageItem key defaultValue p =
     (case getItem key (localStorage p) of
        Inr v \<Rightarrow> ((case v of None \<Rightarrow> defaultValue | Some s \<Rightarrow> s = ''true''), p)
      | Inl err \<Rightarrow>
          (defaultValue, p\<lparr>console := console p @ [''Error getting storage item '' @ key @ '':'']\<rparr>))"

definition setStorageItem :: "string \<Rightarrow> bool \<Rightarrow> page \<Rightarrow> bool \<times> page" where
  "setStorageItem key v p =
     (case setItem key (if v then ''true'' else ''false'') (localStorage p) of
        Inr st \<Rightarrow> (True, p\<lparr>localStorage := st\<rparr>)
      | Inl err \<Rightarrow>
          (False, p\<lparr>console := console p @ [''Error setting storage item '' @ key @ '':'']\<rparr>))"

definition isPageRefreshed :: "page \<Rightarrow> bool" where
  "isPageRefreshed p =
     (case navigation_entries p of
        Some navEntries \<Rightarrow> length navEntries > 0 \<and> hd navEntries = ''reload''
      | None \<Rightarrow> False)"

subsection \<open>Matchers\<close>

text \<open>
  An entry of \<open>urlPatterns\<close> is a string, a \<open>RegExp\<close>, or anything else. A \<open>RegExp\<close>
  written without the \<open>g\<close> and \<open>y\<close> flags, as all of the handlers' are, keeps no state
  between calls: it is given by what its \<open>test\<close> answers on each string.
\<close>

datatype matcher = Str string | Pat "string \<Rightarrow> bool" | Other

text \<open>\<open>url.includes(pattern)\<close>: the pattern occurs in the url at some position.\<close>

fun str_includes :: "string \<Rightarrow> string \<Rightarrow> bool" where
  "str_includes [] pat = (pat = [])"
| "str_includes (c # cs) pat = (prefix pat (c # cs) \<or> str_includes cs pat)"

text \<open>
  The patterns of the handlers use literal characters, an optional character and the
  end anchor: \<open>/grok\.com\/?$/\<close>, \<open>/chatgpt\.com\/?$/\<close>. \<open>rx_match r s\<close> lists what is left of
  \<open>s\<close> after each way of matching \<open>r\<close> at its start; \<open>rx_test\<close> tries every start position,
  as \<open>RegExp.prototype.test\<close> does for a pattern without \<open>^\<close>.
\<close>

datatype rx = Chr char | Seq rx rx | Opt rx | Eol

fun rx_match :: "rx \<Rightarrow> string \<Rightarrow> string list" where
  "rx_match (Chr c) s = (case s of [] \<Rightarrow> [] | x # xs \<Rightarrow> if x = c then [xs] else [])"
| "rx_match (Seq a b) s = concat (map (rx_match b) (rx_match a s))"
| "rx_match (Opt a) s = rx_match a s @ [s]"
| "rx_match Eol s = (if s = [] then [s] else [])"

fun rx_test :: "rx \<Rightarrow> string \<Rightarrow> bool" where
  "rx_test r [] = (rx_match r [] \<noteq> [])"
| "rx_test r (c # cs) = (rx_match r (c # cs) \<noteq> [] \<or> rx_test r cs)"

fun rx_literal :: "string \<Rightarrow> rx \<Rightarrow> rx" where
  "rx_literal [] r = r"
| "rx_literal (c # cs) r = Seq (Chr c) (rx_literal cs r)"

definition grok_home :: rx where
  "grok_home = rx_literal ''grok.com'' (Seq (Opt (Chr CHR ''/'')) Eol)"

subsection \<open>AIPlatformHandler\<close>

record config =
  hostname :: string
  storageKey :: string
  urlPatterns :: "matcher list"
  defaultDelays :: "nat list"

text \<open>
  What a call of \<open>handler.initialize()\<close> hands back: a promise that resolves to a boolean
  or rejects with an error, or, from a method that is not \<open>async\<close> and returns nothing,
  \<open>undefined\<close>.
\<close>

datatype returned = Resolves bool | Rejects string | Undefined

text \<open>
  A handler object: its identity, its \<open>config\<close>, the \<open>enableFeatures\<close> of its class (the
  base class's throws), and the \<open>initialize\<close> of its class when the class defines its own
  (\<open>None\<close>: the handler inherits \<open>AIPlatformHandler.initialize\<close>).
\<close>

record handler =
  hid :: nat
  config :: config
  enableFeatures :: "page \<Rightarrow> outcome \<times> page"
  initialize_override :: "(page \<Rightarrow> returned \<times> page) option"

definition base_enableFeatures :: "page \<Rightarrow> outcome \<times> page" where
  "base_enableFeatures p = (Thrown ''enableFeatures must be implemented by subclass'', p)"

definition isValidPage :: "handler \<Rightarrow> page \<Rightarrow> bool" where
  "isValidPage h p =
     (let url = location_href p
      in list_ex (\<lambda>pattern. case pattern of
                      Str s \<Rightarrow> str_includes url s
                    | Pat re \<Rightarrow> re url
                    | Other \<Rightarrow> False)
           (urlPatterns (config h)))"

definition isCurrentWebsite :: "handler \<Rightarrow> page \<Rightarrow> bool" where
  "isCurrentWebsite h p =
     (str_includes (location_hostname p) (hostname (config h)) \<and> isValidPage h p)"

definition setFeatureEnabled :: "handler \<Rightarrow> bool \<Rightarrow> page \<Rightarrow> bool \<times> page" where
  "setFeatureEnabled h enabled p = setStorageItem (storageKey (config h)) enabled p"

definition getFeatureEnabled :: "handler \<Rightarrow> page \<Rightarrow> bool \<times> page" where
  "getFeatureEnabled h p =
     (if isPageRefreshed p then (False, snd (setFeatureEnabled h False p))
      else getStorageItem (storageKey (config h)) False p)"

definition runWithDelays :: "handler \<Rightarrow> (nat \<Rightarrow> page \<Rightarrow> page) \<Rightarrow> page \<Rightarrow> page run" where
  "runWithDelays h host p =
     tryWithDelays (enableFeatures h) (defaultDelays (config h)) (Some (isValidPage h)) host p"

text \<open>
  \<open>AIPlatformHandler.initialize\<close> (lines 101 to 112) calls \<open>this.runWithDelays()\<close> without
  awaiting it, or hands it to the \<open>load\<close> event: the page records which of the two
  happened. The boolean is what the promise it returns resolves to.
\<close>

definition AIPlatformHandler_initialize :: "handler \<Rightarrow> page \<Rightarrow> bool \<times> page" where
  "AIPlatformHandler_initialize h p =
     (if \<not> isCurrentWebsite h p then (False, p)
      else (let p1 = snd (setFeatureEnabled h False p)
            in if readyState p1 = ''complete''
               then (True, p1\<lparr>started_calls := started_calls p1 @ [RunWithDelays (hid h)]\<rparr>)
               else (True, p1\<lparr>load_listeners := load_listeners p1 @ [RunWithDelays (hid h)]\<rparr>)))"

text \<open>
  \<open>GoogleAIStudioHandler\<close> defines its own \<open>initialize()\<close> (src/googleaistudio.js, lines 101
  to 113; src/dist/chrome/googleaistudio.js, lines 166 to 182): it creates a
  \<open>MutationObserver\<close>, lets it watch \<open>document.body\<close>, and returns nothing. It writes no
  flag, calls no \<open>runWithDelays\<close> and adds no listener. (The content scripts run at
  \<open>document_idle\<close>, when the document has its body.) The class defines no
  \<open>enableFeatures\<close>.
\<close>

definition GoogleAIStudio_initialize :: "nat \<Rightarrow> page \<Rightarrow> returned \<times> page" where
  "GoogleAIStudio_initialize i p = (Undefined, p\<lparr>observers := observers p @ [i]\<rparr>)"

definition GoogleAIStudio_config :: config where
  "GoogleAIStudio_config =
     \<lparr>hostname = ''aistudio.google.com'', storageKey = ''googleaistudio-menus-enabled'',
      urlPatterns = [Str ''aistudio.google.com/''], defaultDelays = [1000, 2000, 3000, 5000]\<rparr>"

definition GoogleAIStudioHandler :: "nat \<Rightarrow> handler" where
  "GoogleAIStudioHandler i =
     \<lparr>hid = i, config = GoogleAIStudio_config, enableFeatures = base_enableFeatures,
      initialize_override = Some (GoogleAIStudio_initialize i)\<rparr>"

text \<open>
  \<open>handler.initialize()\<close>: the method of the handler's own class when it has one, the
  inherited one otherwise.
\<close>

definition initialize :: "handler \<Rightarrow> page \<Rightarrow> returned \<times> page" where
  "initialize h p =
     (case initialize_override h of
        None \<Rightarrow> (case AIPlatformHandler_initialize h p of (b, p') \<Rightarrow> (Resolves b, p'))
      | Some own \<Rightarrow> own p)"

text \<open>What a recorded callback runs: the \<open>runWithDelays\<close> of the handler it names.\<close>

fun run_callback ::
  "handler list \<Rightarrow> (nat \<Rightarrow> page \<Rightarrow> page) \<Rightarrow> callback \<Rightarrow> page \<Rightarrow> page run option" where
  "run_callback hs host (RunWithDelays i) p =
     (case find (\<lambda>h. hid h = i) hs of
        None \<Rightarrow> None
      | Some h \<Rightarrow> Some (runWithDelays h host p))"

subsection \<open>The observer of \<^verbatim>\<open>part_002\<close>\<close>

text \<open>
  \<open>initializeHandlers\<close> (lines 125 to 136) walks the \<open>handlers\<close> array; on every handler
  whose \<open>isCurrentWebsite()\<close> holds it calls \<open>handler.initialize()\<close> and then \<open>.catch(...)\<close> on
  what that returned. On a promise that rejects, the \<open>catch\<close> writes a line to the console. On
  \<open>undefined\<close>, reading \<open>.catch\<close> throws a \<open>TypeError\<close>, which ends the loop and leaves
  \<open>initializeHandlers\<close>: the result is that error with the page as it was then.
\<close>

datatype js_error = TypeError

fun initializeHandlers :: "handler list \<Rightarrow> page \<Rightarrow> js_error option \<times> page" where
  "initializeHandlers [] p = (None, p)"
| "initializeHandlers (h # hs) p =
     (if isCurrentWebsite h p
      then (case initialize h p of
              (Resolves b, p') \<Rightarrow> initializeHandlers hs p'
            | (Rejects err, p') \<Rightarrow>
                initializeHandlers hs
                  (p'\<lparr>console := console p'
                      @ [''Failed to initialize handler for '' @ hostname (config h) @ '':'']\<rparr>)
            | (Undefined, p') \<Rightarrow> (Some TypeError, p'))
      else initializeHandlers hs p)"

text \<open>
  The \<open>MutationObserver\<close> callback (lines 138 to 144) compares \<open>location.href\<close> with the
  script's variable \<open>lastUrl\<close>, the first component of the pair; on a difference it records
  the new URL and then calls \<open>initializeHandlers\<close>. The result is the error that left the
  callback, if any, the new \<open>lastUrl\<close> and the new page.
\<close>

definition observer_callback ::
  "handler list \<Rightarrow> string \<times> page \<Rightarrow> js_error option \<times> string \<times> page" where
  "observer_callback hs s =
     (case s of (lastUrl, p) \<Rightarrow>
        (let url = location_href p
         in if url \<noteq> lastUrl
            then (case initializeHandlers hs p of (err, p') \<Rightarrow> (err, url, p'))
            else (None, lastUrl, p)))"

section \<open>The registry and the navigation watcher of logic.js (src/chrome/background.js, from line 391)\<close>

text \<open>
  This logic.js keeps its handlers in the \<open>Map\<close> \<open>platformHandlers\<close>, from a domain to a
  handler object, and tracks the active one in \<open>currentHandler\<close>. Handler objects are
  named by their identity; \<open>initialized\<close> gives the field \<open>this.initialized\<close> of each. A
  \<open>Map\<close> keeps its keys in insertion order and \<open>set\<close> on a present key replaces the value
  in place, as \<open>AList.update\<close> does. \<open>enabling\<close> lists the handlers whose
  \<open>enableFeatures()\<close> was started by \<open>init\<close>, in order; what \<open>enableFeatures\<close> does to the
  document is each platform's own and no part of this state. The \<open>console.log\<close> lines are
  left out.
\<close>

record logic =
  platformHandlers :: "(string \<times> nat) list"
  initialized :: "nat \<Rightarrow> bool"
  currentUrl :: string
  currentHandler :: "nat option"
  loc_href :: string
  loc_hostname :: string
  enabling :: "nat list"

definition init :: "nat \<Rightarrow> logic \<Rightarrow> logic" where
  "init h st =
     (if initialized st h then st
      else st\<lparr>initialized := (initialized st)(h := True), enabling := enabling st @ [h]\<rparr>)"

definition cleanup :: "nat \<Rightarrow> logic \<Rightarrow> logic" where
  "cleanup h st = st\<lparr>initialized := (initialized st)(h := False)\<rparr>"

definition registerPlatformHandler :: "string \<Rightarrow> nat \<Rightarrow> logic \<Rightarrow> logic" where
  "registerPlatformHandler domain h st =
     st\<lparr>platformHandlers := AList.update domain h (platformHandlers st)\<rparr>"

text \<open>
  \<open>getHandlerForCurrentPage\<close>: the handler of the exact hostname, else of the hostname
  without a leading \<open>www.\<close>, else of the first registered domain that the hostname equals or
  ends with after a dot, else \<open>null\<close>.
\<close>

definition getHandlerForCurrentPage :: "logic \<Rightarrow> nat option" where
  "getHandlerForCurrentPage st =
     (let hostname = loc_hostname st
      in case map_of (platformHandlers st) hostname of
           Some h \<Rightarrow> Some h
         | None \<Rightarrow>
             (let withoutWww = (if prefix ''www.'' hostname then drop 4 hostname else hostname)
              in case map_of (platformHandlers st) withoutWww of
                   Some h \<Rightarrow> Some h
                 | None \<Rightarrow>
                     (case find (\<lambda>(domain, handler).
                                   suffix (''.'' @ domain) hostname \<or> hostname = domain)
                             (platformHandlers st) of
                        Some (domain, handler) \<Rightarrow> Some handler
                      | None \<Rightarrow> None)))"

definition handleUrlChange :: "logic \<Rightarrow> logic" where
  "handleUrlChange st =
     (let newUrl = loc_href st
      in if newUrl \<noteq> currentUrl st
         then (let st1 = st\<lparr>currentUrl := newUrl\<rparr>
               in case getHandlerForCurrentPage st1 of
                    None \<Rightarrow> st1
                  | Some handler \<Rightarrow>
                      if Some handler \<noteq> currentHandler st1
                      then (let st2 = (case currentHandler st1 of
                                         Some c \<Rightarrow> cleanup c st1
                                       | None \<Rightarrow> st1);
                                st3 = st2\<lparr>currentHandler := Some handler\<rparr>
                            in init handler st3)
                      else st1)
         else st)"

text \<open>
  The patched \<open>history.pushState\<close> and \<open>history.replaceState\<close>: the original call, which
  sets the URL of the page within its origin, then \<open>handleUrlChange\<close>.
\<close>

definition pushState :: "string \<Rightarrow> logic \<Rightarrow> logic" where
  "pushState url st = handleUrlChange (st\<lparr>loc_href := url\<rparr>)"

definition replaceState :: "string \<Rightarrow> logic \<Rightarrow> logic" where
  "replaceState url st = handleUrlChange (st\<lparr>loc_href := url\<rparr>)"

text \<open>
  \<open>detectPlatform\<close> (lines 533 to 543) looks the hostname, without a leading \<open>www.\<close>, up
  among the keys of \<open>SUPPORTED_PLATFORMS\<close>, in their order.
\<close>

definition SUPPORTED_PLATFORMS :: "string list" where
  "SUPPORTED_PLATFORMS =
     [''claude.ai'', ''grok.com'', ''chat.deepseek.com'', ''chatgpt.com'', ''chat.openai.com'',
      ''gemini.google.com'', ''aistudio.google.com'']"

definition detectPlatform :: "logic \<Rightarrow> string option" where
  "detectPlatform st =
     (let hostname = (if prefix ''www.'' (loc_hostname st) then drop 4 (loc_hostname st)
                      else loc_hostname st)
      in find (\<lambda>domain. hostname = domain \<or> suffix (''.'' @ domain) hostname)
           SUPPORTED_PLATFORMS)"

text \<open>
  \<open>initExtension\<close> (lines 643 to 665), run once when the script is loaded: on a supported
  platform it waits 500 ms, then sets \<open>currentHandler\<close> to the handler of the page and
  calls its \<open>init()\<close>; it calls no \<open>cleanup()\<close>. \<open>during\<close> is what the other scripts and the
  page do to the state while it waits (handlers register, the URL changes). The
  \<open>MutationObserver\<close> it starts only calls \<open>onDomChange\<close> of the page's handler and touches
  none of this state.
\<close>

definition initExtension :: "(logic \<Rightarrow> logic) \<Rightarrow> logic \<Rightarrow> logic" where
  "initExtension during st =
     (case detectPlatform st of
        None \<Rightarrow> st
      | Some platform \<Rightarrow>
          (let st1 = during st;
               st2 = st1\<lparr>currentHandler := getHandlerForCurrentPage st1\<rparr>
           in case currentHandler st2 of
                Some h \<Rightarrow> init h st2
              | None \<Rightarrow> st2))"

text \<open>
  The state in which the script is loaded, and a condition on states: no handler but the
  current one is initialized. \<open>handleUrlChange\<close> keeps it; \<open>initExtension\<close> need not.
\<close>

definition loaded :: "string \<Rightarrow> string \<Rightarrow> logic" where
  "loaded host url =
     \<lparr>platformHandlers = [], initialized = (\<lambda>h. False), currentUrl = url,
      currentHandler = None, loc_href = url, loc_hostname = host, enabling = []\<rparr>"

definition only_current_active :: "logic \<Rightarrow> bool" where
  "only_current_active st = (\<forall>h. initialized st h \<longrightarrow> currentHandler st = Some h)"

section \<open>Inputs for closed instances\<close>

text \<open>
  A world that only counts the calls made so far, an action that answers call number
  \<open>n + 1\<close> with the \<open>n\<close>-th entry of a script (and with a falsy value beyond it), a host that
  changes nothing during a sleep, and a guard that holds until \<open>m\<close> calls have been made.
\<close>

definition scripted_action :: "outcome list \<Rightarrow> nat \<Rightarrow> outcome \<times> nat" where
  "scripted_action script n = (if n < length script then script ! n else Resolved False, Suc n)"

definition idle_host :: "nat \<Rightarrow> 'w \<Rightarrow> 'w" where
  "idle_host ms w = w"

definition calls_below :: "nat \<Rightarrow> nat \<Rightarrow> bool" where
  "calls_below m n = (n < m)"

text \<open>
  \<open>new AIPlatformHandler(config)\<close> with every field of the configuration given, as the
  identity \<open>i\<close>; the configuration that \<open>GrokHandler\<close> passes (src/grok.js, lines 3 to 8);
  and a page just navigated to, with an empty working store.
\<close>

definition AIPlatformHandler :: "nat \<Rightarrow> config \<Rightarrow> handler" where
  "AIPlatformHandler i cfg =
     \<lparr>hid = i, config = cfg, enableFeatures = base_enableFeatures, initialize_override = None\<rparr>"

definition GrokHandler_config :: config where
  "GrokHandler_config =
     \<lparr>hostname = ''grok.com'', storageKey = ''grok-thinking-enabled'',
      urlPatterns = [Str ''grok.com/new'', Str ''grok.com/chat'', Pat (rx_test grok_home)],
      defaultDelays = [1500, 3000, 5000, 7000]\<rparr>"

definition x_test_config :: config where
  "x_test_config =
     \<lparr>hostname = ''x.test'', storageKey = ''x-enabled'',
      urlPatterns = [Str ''x.test/chat''], defaultDelays = [100, 200]\<rparr>"

definition fresh_page :: "string \<Rightarrow> string \<Rightarrow> string \<Rightarrow> page" where
  "fresh_page host url state =
     \<lparr>localStorage = \<lparr>items = Map.empty, access_denied = False, quota_exceeded = False\<rparr>,
      navigation_entries = Some [''navigate''],
      location_href = url, location_hostname = host, readyState = state,
      load_listeners = [], started_calls = [], observers = [], console = []\<rparr>"

text \<open>
  The same page on a later load: the flag of \<open>key\<close> was stored as \<open>v\<close> before, and the
  navigation entry of this load has the type \<open>kind\<close>.
\<close>

definition revisited_page :: "string \<Rightarrow> string \<Rightarrow> string \<Rightarrow> page" where
  "revisited_page key v kind =
     (fresh_page ''grok.com'' ''https://grok.com/'' ''complete'')
       \<lparr>localStorage := \<lparr>items = [key \<mapsto> v], access_denied = False, quota_exceeded = False\<rparr>,
        navigation_entries := Some [kind]\<rparr>"



definition aistudio_page :: page where
  "aistudio_page =
     (fresh_page ''aistudio.google.com'' ''https://aistudio.google.com/prompts/new_chat'' ''complete'')
       \<lparr>localStorage := \<lparr>items = [''googleaistudio-menus-enabled'' \<mapsto> ''true''],
                          access_denied = False, quota_exceeded = False\<rparr>\<rparr>"

text \<open>
  A page of \<open>sub.grok.com\<close> on which handler 1, registered for \<open>grok.com\<close>, was found by the
  subdomain rule and initialized; then handler 2 was registered for \<open>sub.grok.com\<close> itself,
  and the page's script moved the URL to \<open>/c/1\<close>.
\<close>

definition subdomain_then_exact :: logic where
  "subdomain_then_exact =
     registerPlatformHandler ''sub.grok.com'' 2
       ((registerPlatformHandler ''grok.com'' 1 (loaded ''sub.grok.com'' ''https://sub.grok.com/''))
          \<lparr>currentHandler := Some 1, initialized := (\<lambda>h. h = 1), enabling := [1],
           loc_href := ''https://sub.grok.com/c/1''\<rparr>)"

text \<open>
  What happens on \<open>sub.grok.com\<close> while \<open>initExtension\<close> waits: handler 1 registers for
  \<open>grok.com\<close>, the page's script pushes the URL \<open>/a\<close>, and handler 2 registers for
  \<open>sub.grok.com\<close>.
\<close>

definition during_wait :: "logic \<Rightarrow> logic" where
  "during_wait st =
     registerPlatformHandler ''sub.grok.com'' 2
       (pushState ''https://sub.grok.com/a'' (registerPlatformHandler ''grok.com'' 1 st))"

section \<open>Properties of the retry scheduler\<close>


lemma tryLoop_all_fail:
  "\<forall>w. fst (A w) \<noteq> Resolved True \<Longrightarrow>
   \<not> result (tryLoop A host D w)
   \<and> timeline (trace (tryLoop A host D w)) = concat (map (\<lambda>d. [Some d, None]) D)
   \<and> invocations (trace (tryLoop A host D w)) = length D
   \<and> slept_total (trace (tryLoop A host D w)) = sum_list D
   \<and> logged_errors (trace (tryLoop A host D w)) = thrown_errors (trace (tryLoop A host D w))"
proof (induction D arbitrary: w)
  case Nil
  then show ?case by simp
next
  case (Cons d D)
  obtain r w' where a: "A (waitFor host d w) = (r, w')"
    by (cases "A (waitFor host d w)")
  with Cons.prems have r: "r \<noteq> Resolved True"
    by (metis fst_conv)
  show ?case using Cons.IH [OF Cons.prems, of w'] r a
    by (cases r) (auto simp: Let_def)
qed

lemma tryLoop_no_guard_check: "guard_checks (trace (tryLoop A host D w)) = 0"
proof (induction D arbitrary: w)
  case Nil
  then show ?case by simp
next
  case (Cons d D)
  obtain r w' where a: "A (waitFor host d w) = (r, w')"
    by (cases "A (waitFor host d w)")
  show ?case using Cons.IH [of w'] a
    by (cases r) (auto simp: Let_def)
qed

lemma tryWithDelays_guard_passed:
  "guard_passes g w \<Longrightarrow>
   result (tryWithDelays A D g host w) = result (tryLoop A host D w)
   \<and> world (tryWithDelays A D g host w) = world (tryLoop A host D w)
   \<and> timeline (trace (tryWithDelays A D g host w)) = timeline (trace (tryLoop A host D w))
   \<and> invocations (trace (tryWithDelays A D g host w)) = invocations (trace (tryLoop A host D w))
   \<and> slept_total (trace (tryWithDelays A D g host w)) = slept_total (trace (tryLoop A host D w))
   \<and> logged_errors (trace (tryWithDelays A D g host w)) = logged_errors (trace (tryLoop A host D w))
   \<and> thrown_errors (trace (tryWithDelays A D g host w)) = thrown_errors (trace (tryLoop A host D w))"
  by (cases g) (simp_all add: tryWithDelays_def guard_passes_def Let_def)

text \<open>
  C1, as the specification states it: the guard is evaluated before every attempt, so a
  guard that turns false after attempt 2 of a 4-delay sequence stops the scheduler after
  2 calls. The code evaluates it once, on entry (line 48, before the loop): with an
  action that keeps failing, a guard that holds only while fewer than 2 calls have been
  made, and 4 delays, the scheduler checks the guard once and calls the action 4 times.
\<close>

theorem tryWithDelays_guard_not_rechecked:
  "invocations (trace (tryWithDelays (scripted_action []) [1000, 2000, 3000, 5000]
       (Some (calls_below 2)) idle_host 0)) = 4
   \<and> invocations (trace (tryWithDelays (scripted_action []) [1000, 2000, 3000, 5000]
       (Some (calls_below 2)) idle_host 0)) \<noteq> 2
   \<and> guard_checks (trace (tryWithDelays (scripted_action []) [1000, 2000, 3000, 5000]
       (Some (calls_below 2)) idle_host 0)) = 1
   \<and> \<not> calls_below 2 (world (tryWithDelays (scripted_action []) [1000, 2000, 3000, 5000]
       (Some (calls_below 2)) idle_host 0))"
  by (simp add: tryWithDelays_def scripted_action_def idle_host_def calls_below_def waitFor_def)

text \<open>
  C1, amended: the scheduler evaluates the guard exactly once, on entry, before the first
  sleep. When the guard is false there, the scheduler returns false at once, with no sleep
  and no call of the action. When it is true there, the run is the run of the same action
  and delays with no guard at all, so what the guard would answer later has no effect.
\<close>

theorem tryWithDelays_guard_on_entry:
  "guard_checks (trace (tryWithDelays A D (Some g) host w)) = 1
   \<and> hd (trace (tryWithDelays A D (Some g) host w)) = GuardChecked (g w)
   \<and> (\<not> g w \<longrightarrow>
        tryWithDelays A D (Some g) host w = \<lparr>result = False, world = w, trace = [GuardChecked False]\<rparr>)
   \<and> (g w \<longrightarrow>
        result (tryWithDelays A D (Some g) host w) = result (tryWithDelays A D None host w)
        \<and> world (tryWithDelays A D (Some g) host w) = world (tryWithDelays A D None host w)
        \<and> trace (tryWithDelays A D (Some g) host w)
            = GuardChecked True # trace (tryWithDelays A D None host w))"
  by (simp add: tryWithDelays_def Let_def tryLoop_no_guard_check)

theorem tryWithDelays_guard_on_entry_witness:
  "calls_below 2 (0::nat)
   \<and> result (tryWithDelays (scripted_action []) [1000, 2000, 3000, 5000]
        (Some (calls_below 2)) idle_host 0) = False
   \<and> trace (tryWithDelays (scripted_action []) [1000, 2000, 3000, 5000]
        (Some (calls_below 2)) idle_host 0)
      = [GuardChecked True,
         Slept 1000, Invoked (Resolved False), Slept 2000, Invoked (Resolved False),
         Slept 3000, Invoked (Resolved False), Slept 5000, Invoked (Resolved False)]"
proof -
  have g: "calls_below 2 (0::nat)"
    by (simp add: calls_below_def)
  have n: "tryWithDelays (scripted_action []) [1000, 2000, 3000, 5000] None idle_host 0
           = \<lparr>result = False, world = 4,
              trace = [Slept 1000, Invoked (Resolved False), Slept 2000, Invoked (Resolved False),
                       Slept 3000, Invoked (Resolved False), Slept 5000, Invoked (Resolved False)]\<rparr>"
    by (simp add: tryWithDelays_def scripted_action_def idle_host_def waitFor_def)
  show ?thesis
    using g n tryWithDelays_guard_on_entry
      [of "scripted_action []" "[1000, 2000, 3000, 5000]" "calls_below 2" idle_host 0]
    by simp
qed



text \<open>
  C3. Let the action never succeed: every call resolves falsy or throws. With a guard
  that holds (or none), the scheduler returns false after exactly \<open>|D|\<close> calls, one after
  each delay of \<open>D\<close> in order. No error leaves the scheduler: each thrown error is caught and
  logged (the logged errors are the thrown ones, in order) and the loop goes on.
\<close>

theorem tryWithDelays_always_failing:
  assumes "\<forall>w. fst (A w) \<noteq> Resolved True" and "guard_passes g w"
  shows "result (tryWithDelays A D g host w) = False
    \<and> invocations (trace (tryWithDelays A D g host w)) = length D
    \<and> timeline (trace (tryWithDelays A D g host w)) = concat (map (\<lambda>d. [Some d, None]) D)
    \<and> logged_errors (trace (tryWithDelays A D g host w))
        = thrown_errors (trace (tryWithDelays A D g host w))"
  using tryLoop_all_fail [OF assms(1), of host D w] tryWithDelays_guard_passed [OF assms(2), of A D host]
  by simp

theorem tryWithDelays_always_failing_witness:
  "result (tryWithDelays (scripted_action [Thrown ''boom'', Resolved False, Thrown ''bang''])
        [1000, 2000, 3000, 5000] None idle_host 0) = False
   \<and> invocations (trace (tryWithDelays (scripted_action [Thrown ''boom'', Resolved False, Thrown ''bang''])
        [1000, 2000, 3000, 5000] None idle_host 0)) = 4
   \<and> logged_errors (trace (tryWithDelays (scripted_action [Thrown ''boom'', Resolved False, Thrown ''bang''])
        [1000, 2000, 3000, 5000] None idle_host 0)) = [''boom'', ''bang'']"
proof -
  let ?A = "scripted_action [Thrown ''boom'', Resolved False, Thrown ''bang'']"
  have h1: "\<forall>w. fst (?A w) \<noteq> Resolved True"
    by (simp add: scripted_action_def nth_Cons split: nat.split)
  have h2: "guard_passes None (0::nat)"
    by (simp add: guard_passes_def)
  have t: "thrown_errors (trace (tryWithDelays ?A [1000, 2000, 3000, 5000] None idle_host 0))
           = [''boom'', ''bang'']"
    by (simp add: tryWithDelays_def scripted_action_def idle_host_def waitFor_def)
  show ?thesis
    using tryWithDelays_always_failing
      [OF h1 h2, where host = idle_host and D = "[1000, 2000, 3000, 5000]"] t
    by simp
qed

text \<open>
  C8. With an empty delay sequence the scheduler returns false and never calls the
  action, whatever the action and the guard are; it does not sleep either and leaves the
  world as it found it.
\<close>

theorem tryWithDelays_empty:
  "result (tryWithDelays action [] validationFn host w) = False
   \<and> invocations (trace (tryWithDelays action [] validationFn host w)) = 0
   \<and> slept_total (trace (tryWithDelays action [] validationFn host w)) = 0
   \<and> world (tryWithDelays action [] validationFn host w) = w"
  by (simp add: tryWithDelays_def split: option.split)


section \<open>Properties of the storage adapter\<close>

lemma setStorageItem_ok:
  "storage_writable (localStorage p) \<Longrightarrow>
   setStorageItem key v p
     = (True, p\<lparr>localStorage := (localStorage p)
                 \<lparr>items := (items (localStorage p))(key \<mapsto> (if v then ''true'' else ''false''))\<rparr>\<rparr>)"
  by (simp add: setStorageItem_def setItem_def storage_writable_def)

lemma setStorageItem_fails:
  "\<not> storage_writable (localStorage p) \<Longrightarrow>
   setStorageItem key v p
     = (False, p\<lparr>console := console p @ [''Error setting storage item '' @ key @ '':'']\<rparr>)"
  by (auto simp add: setStorageItem_def setItem_def storage_writable_def)

text \<open>
  C7. \<open>setStorageItem\<close> (and \<open>setFeatureEnabled\<close>, which only passes the handler's key)
  returns true exactly when the write succeeded, and the store then holds the value. When
  \<open>localStorage.setItem\<close> throws, the error is caught: the function returns false, the
  store is as before and one line is written to the console. Either way the caller gets a
  boolean, never the exception.
\<close>

theorem setStorageItem_reports_write:
  "fst (setStorageItem key v p) = storage_writable (localStorage p)
   \<and> (storage_writable (localStorage p) \<longrightarrow>
        items (localStorage (snd (setStorageItem key v p))) key
          = Some (if v then ''true'' else ''false'')
        \<and> console (snd (setStorageItem key v p)) = console p)
   \<and> (\<not> storage_writable (localStorage p) \<longrightarrow>
        fst (setStorageItem key v p) = False
        \<and> localStorage (snd (setStorageItem key v p)) = localStorage p
        \<and> console (snd (setStorageItem key v p))
            = console p @ [''Error setting storage item '' @ key @ '':''])
   \<and> setFeatureEnabled h enabled p = setStorageItem (storageKey (config h)) enabled p"
  by (cases "storage_writable (localStorage p)")
     (simp_all add: setStorageItem_ok setStorageItem_fails setFeatureEnabled_def)

theorem setStorageItem_reports_write_witness:
  "fst (setStorageItem ''x-enabled'' True (fresh_page ''x.test'' ''https://x.test/chat'' ''complete''))
   \<and> items (localStorage (snd (setStorageItem ''x-enabled'' True
        (fresh_page ''x.test'' ''https://x.test/chat'' ''complete'')))) ''x-enabled'' = Some ''true''
   \<and> \<not> fst (setStorageItem ''x-enabled'' True
        ((fresh_page ''x.test'' ''https://x.test/chat'' ''complete'')
           \<lparr>localStorage := \<lparr>items = Map.empty, access_denied = True, quota_exceeded = False\<rparr>\<rparr>))
   \<and> console (snd (setStorageItem ''x-enabled'' True
        ((fresh_page ''x.test'' ''https://x.test/chat'' ''complete'')
           \<lparr>localStorage := \<lparr>items = Map.empty, access_denied = True, quota_exceeded = False\<rparr>\<rparr>)))
      = [''Error setting storage item x-enabled:'']"
proof -
  let ?p = "fresh_page ''x.test'' ''https://x.test/chat'' ''complete''"
  let ?q = "?p\<lparr>localStorage := \<lparr>items = Map.empty, access_denied = True, quota_exceeded = False\<rparr>\<rparr>"
  have w: "storage_writable (localStorage ?p)"
    by (simp add: storage_writable_def fresh_page_def)
  have n: "\<not> storage_writable (localStorage ?q)"
    by (simp add: storage_writable_def)
  have c: "console ?q = []"
    by (simp add: fresh_page_def)
  show ?thesis
    using w n c
      setStorageItem_reports_write [of "''x-enabled''" True ?p]
      setStorageItem_reports_write [of "''x-enabled''" True ?q]
    by simp
qed

text \<open>
  C10. When \<open>setStorageItem(key, b)\<close> has returned true, \<open>getStorageItem(key, d)\<close> on the
  page it left returns \<open>b\<close>, for every default \<open>d\<close>: the write stores exactly \<open>"true"\<close> or
  \<open>"false"\<close>, and a read of a stored string answers whether it is \<open>"true"\<close>.
\<close>

theorem storage_round_trip:
  assumes "fst (setStorageItem key b p)"
  shows "fst (getStorageItem key d (snd (setStorageItem key b p))) = b
    \<and> items (localStorage (snd (setStorageItem key b p))) key
        = Some (if b then ''true'' else ''false'')
    \<and> (\<forall>q v. \<not> access_denied (localStorage q) \<and> items (localStorage q) key = Some v
          \<longrightarrow> fst (getStorageItem key d q) = (v = ''true''))"
proof -
  from assms have w: "storage_writable (localStorage p)"
    by (cases "storage_writable (localStorage p)") (simp_all add: setStorageItem_fails)
  then show ?thesis
    by (auto simp add: setStorageItem_ok getStorageItem_def getItem_def storage_writable_def)
qed

theorem storage_round_trip_witness:
  "fst (getStorageItem ''grok-thinking-enabled'' False
          (snd (setStorageItem ''grok-thinking-enabled'' True
                  (fresh_page ''grok.com'' ''https://grok.com/'' ''complete'')))) = True
   \<and> fst (getStorageItem ''grok-thinking-enabled'' True
          (snd (setStorageItem ''grok-thinking-enabled'' False
                  (fresh_page ''grok.com'' ''https://grok.com/'' ''complete'')))) = False"
proof -
  let ?p = "fresh_page ''grok.com'' ''https://grok.com/'' ''complete''"
  have t: "fst (setStorageItem ''grok-thinking-enabled'' True ?p)"
    and f: "fst (setStorageItem ''grok-thinking-enabled'' False ?p)"
    by (simp_all add: setStorageItem_def setItem_def fresh_page_def)
  show ?thesis
    using storage_round_trip [OF t, of False] storage_round_trip [OF f, of True]
    by simp
qed

text \<open>
  C4. When the page load is a reload (\<open>isPageRefreshed\<close>), \<open>getFeatureEnabled\<close> returns
  false whatever is stored, after writing false under the handler's key: the page it
  leaves is the one \<open>setStorageItem(key, false)\<close> leaves, and a store that takes the write
  holds \<open>"false"\<close>. Otherwise it returns the stored boolean and false when nothing is
  stored, and changes nothing (a store that cannot be read gives the default, false).
\<close>

theorem getFeatureEnabled_reload_reset:
  "(isPageRefreshed p \<longrightarrow>
      fst (getFeatureEnabled h p) = False
      \<and> snd (getFeatureEnabled h p) = snd (setStorageItem (storageKey (config h)) False p)
      \<and> (storage_writable (localStorage p) \<longrightarrow>
           items (localStorage (snd (getFeatureEnabled h p))) (storageKey (config h))
             = Some ''false''))
   \<and> (\<not> isPageRefreshed p \<longrightarrow>
        (\<not> access_denied (localStorage p) \<longrightarrow>
           getFeatureEnabled h p
             = ((case items (localStorage p) (storageKey (config h)) of
                   None \<Rightarrow> False | Some v \<Rightarrow> v = ''true''), p))
        \<and> (access_denied (localStorage p) \<longrightarrow> fst (getFeatureEnabled h p) = False))"
  by (simp add: getFeatureEnabled_def setFeatureEnabled_def setStorageItem_ok
        getStorageItem_def getItem_def)

theorem getFeatureEnabled_reload_reset_witness:
  "isPageRefreshed (revisited_page ''grok-thinking-enabled'' ''true'' ''reload'')
   \<and> fst (getFeatureEnabled (AIPlatformHandler 0 GrokHandler_config)
            (revisited_page ''grok-thinking-enabled'' ''true'' ''reload'')) = False
   \<and> items (localStorage (snd (getFeatureEnabled (AIPlatformHandler 0 GrokHandler_config)
            (revisited_page ''grok-thinking-enabled'' ''true'' ''reload''))))
        ''grok-thinking-enabled'' = Some ''false''
   \<and> \<not> isPageRefreshed (revisited_page ''grok-thinking-enabled'' ''true'' ''navigate'')
   \<and> fst (getFeatureEnabled (AIPlatformHandler 0 GrokHandler_config)
            (revisited_page ''grok-thinking-enabled'' ''true'' ''navigate'')) = True
   \<and> fst (getFeatureEnabled (AIPlatformHandler 0 GrokHandler_config)
            (fresh_page ''grok.com'' ''https://grok.com/'' ''complete'')) = False"
proof -
  let ?h = "AIPlatformHandler 0 GrokHandler_config"
  let ?r = "revisited_page ''grok-thinking-enabled'' ''true'' ''reload''"
  let ?n = "revisited_page ''grok-thinking-enabled'' ''true'' ''navigate''"
  let ?f = "fresh_page ''grok.com'' ''https://grok.com/'' ''complete''"
  have k: "storageKey (config ?h) = ''grok-thinking-enabled''"
    by (simp add: AIPlatformHandler_def GrokHandler_config_def)
  have r: "isPageRefreshed ?r" "storage_writable (localStorage ?r)"
    by (simp_all add: isPageRefreshed_def revisited_page_def storage_writable_def)
  have n: "\<not> isPageRefreshed ?n" "\<not> access_denied (localStorage ?n)"
    "items (localStorage ?n) ''grok-thinking-enabled'' = Some ''true''"
    by (simp_all add: isPageRefreshed_def revisited_page_def)
  have f: "\<not> isPageRefreshed ?f" "\<not> access_denied (localStorage ?f)"
    "items (localStorage ?f) ''grok-thinking-enabled'' = None"
    by (simp_all add: isPageRefreshed_def fresh_page_def)
  have a: "fst (getFeatureEnabled ?h ?r) = False
      \<and> items (localStorage (snd (getFeatureEnabled ?h ?r))) ''grok-thinking-enabled'' = Some ''false''"
    using r getFeatureEnabled_reload_reset [of ?r ?h] unfolding k by blast
  have b: "getFeatureEnabled ?h ?n = (True, ?n)"
    using n getFeatureEnabled_reload_reset [of ?n ?h] unfolding k by simp
  have c: "getFeatureEnabled ?h ?f = (False, ?f)"
    using f getFeatureEnabled_reload_reset [of ?f ?h] unfolding k by simp
  from a b c r(1) n(1) show ?thesis
    by simp
qed

section \<open>Properties of the page matcher\<close>

lemma str_includes_iff: "str_includes url pat \<longleftrightarrow> (\<exists>pre suf. url = pre @ pat @ suf)"
proof (induction url)
  case Nil
  then show ?case by auto
next
  case (Cons c cs)
  show ?case
  proof
    assume "str_includes (c # cs) pat"
    then consider "prefix pat (c # cs)" | "str_includes cs pat"
      by auto
    then show "\<exists>pre suf. c # cs = pre @ pat @ suf"
    proof cases
      case 1
      then obtain suf where "c # cs = pat @ suf"
        by (auto simp: prefix_def)
      then have "c # cs = [] @ pat @ suf"
        by simp
      then show ?thesis by blast
    next
      case 2
      with Cons.IH obtain pre suf where "cs = pre @ pat @ suf"
        by blast
      then have "c # cs = (c # pre) @ pat @ suf"
        by simp
      then show ?thesis by blast
    qed
  next
    assume "\<exists>pre suf. c # cs = pre @ pat @ suf"
    then obtain pre suf where e: "c # cs = pre @ pat @ suf"
      by blast
    show "str_includes (c # cs) pat"
    proof (cases pre)
      case Nil
      with e have "prefix pat (c # cs)"
        by (simp add: prefix_def)
      then show ?thesis by simp
    next
      case (Cons a pre')
      with e have "cs = pre' @ pat @ suf"
        by simp
      with Cons.IH have "str_includes cs pat"
        by blast
      then show ?thesis by simp
    qed
  qed
qed

text \<open>
  What the pattern engine answers on the handlers' patterns: a literal followed by an
  optional character and the end anchor matches the strings that end with the literal, or
  with the literal and that character.
\<close>

lemma rx_match_literal:
  "rx_match (rx_literal l r) s = (if prefix l s then rx_match r (drop (length l) s) else [])"
proof (induction l arbitrary: s)
  case Nil
  then show ?case by simp
next
  case (Cons c l)
  then show ?case by (cases s) auto
qed

lemma rx_test_iff: "rx_test r s \<longleftrightarrow> (\<exists>t. suffix t s \<and> rx_match r t \<noteq> [])"
proof (induction s)
  case Nil
  then show ?case by simp
next
  case (Cons c cs)
  then show ?case by (auto simp: suffix_Cons)
qed

lemma rx_tail: "rx_match (Seq (Opt (Chr c)) Eol) t \<noteq> [] \<longleftrightarrow> t = [] \<or> t = [c]"
  by (cases t) (auto split: list.splits)

lemma rx_literal_tail:
  "rx_match (rx_literal l (Seq (Opt (Chr c)) Eol)) t \<noteq> [] \<longleftrightarrow> t = l \<or> t = l @ [c]"
proof -
  have "rx_match (rx_literal l (Seq (Opt (Chr c)) Eol)) t \<noteq> []
        \<longleftrightarrow> prefix l t \<and> (drop (length l) t = [] \<or> drop (length l) t = [c])"
    by (simp only: rx_match_literal rx_tail split: if_split) simp
  also have "\<dots> \<longleftrightarrow> t = l \<or> t = l @ [c]"
    by (auto simp: prefix_def)
  finally show ?thesis .
qed

lemma rx_test_literal_tail:
  "rx_test (rx_literal l (Seq (Opt (Chr c)) Eol)) url \<longleftrightarrow> suffix l url \<or> suffix (l @ [c]) url"
  unfolding rx_test_iff rx_literal_tail by blast

lemma grok_home_iff:
  "rx_test grok_home url \<longleftrightarrow> suffix ''grok.com'' url \<or> suffix ''grok.com/'' url"
  unfolding grok_home_def rx_test_literal_tail by simp

text \<open>
  C5. \<open>isValidPage\<close> is true exactly when some entry of \<open>urlPatterns\<close> matches the page's
  URL: a string entry when the URL contains it, a pattern entry when its \<open>test\<close> accepts
  the URL (any other entry never). With the entries \<open>"grok.com/new"\<close> and
  \<open>/grok\.com\/?$/\<close>, the URLs \<open>https://grok.com/\<close> and \<open>https://grok.com/new\<close> are accepted
  and \<open>https://grok.com/other/path\<close> is rejected.
\<close>

theorem isValidPage_some_matcher:
  "(isValidPage h p \<longleftrightarrow>
      (\<exists>m \<in> set (urlPatterns (config h)).
         case m of Str s \<Rightarrow> (\<exists>pre suf. location_href p = pre @ s @ suf)
                 | Pat re \<Rightarrow> re (location_href p)
                 | Other \<Rightarrow> False))
   \<and> isValidPage (h\<lparr>config := (config h)\<lparr>urlPatterns := [Str ''grok.com/new'', Pat (rx_test grok_home)]\<rparr>\<rparr>)
        (p\<lparr>location_href := ''https://grok.com/''\<rparr>)
   \<and> isValidPage (h\<lparr>config := (config h)\<lparr>urlPatterns := [Str ''grok.com/new'', Pat (rx_test grok_home)]\<rparr>\<rparr>)
        (p\<lparr>location_href := ''https://grok.com/new''\<rparr>)
   \<and> \<not> isValidPage (h\<lparr>config := (config h)\<lparr>urlPatterns := [Str ''grok.com/new'', Pat (rx_test grok_home)]\<rparr>\<rparr>)
        (p\<lparr>location_href := ''https://grok.com/other/path''\<rparr>)"
proof -
  have general: "isValidPage h p \<longleftrightarrow>
      (\<exists>m \<in> set (urlPatterns (config h)).
         case m of Str s \<Rightarrow> (\<exists>pre suf. location_href p = pre @ s @ suf)
                 | Pat re \<Rightarrow> re (location_href p)
                 | Other \<Rightarrow> False)"
    by (simp add: isValidPage_def Let_def list_ex_iff str_includes_iff cong: matcher.case_cong)
  have home: "isValidPage (h\<lparr>config := (config h)\<lparr>urlPatterns := [Str ''grok.com/new'', Pat (rx_test grok_home)]\<rparr>\<rparr>)
        (p\<lparr>location_href := ''https://grok.com/''\<rparr>)"
    by (simp add: isValidPage_def grok_home_def)
  have new: "isValidPage (h\<lparr>config := (config h)\<lparr>urlPatterns := [Str ''grok.com/new'', Pat (rx_test grok_home)]\<rparr>\<rparr>)
        (p\<lparr>location_href := ''https://grok.com/new''\<rparr>)"
    by (simp add: isValidPage_def grok_home_def)
  have other: "\<not> isValidPage (h\<lparr>config := (config h)\<lparr>urlPatterns := [Str ''grok.com/new'', Pat (rx_test grok_home)]\<rparr>\<rparr>)
        (p\<lparr>location_href := ''https://grok.com/other/path''\<rparr>)"
    by (simp add: isValidPage_def grok_home_def)
  from general home new other show ?thesis by blast
qed

text \<open>
  The same three URLs on \<open>GrokHandler\<close>'s own list, which has \<open>"grok.com/chat"\<close> as well.
\<close>

lemma GrokHandler_pages:
  "isValidPage (AIPlatformHandler i GrokHandler_config) (fresh_page ''grok.com'' ''https://grok.com/'' st)
   \<and> isValidPage (AIPlatformHandler i GrokHandler_config) (fresh_page ''grok.com'' ''https://grok.com/new'' st)
   \<and> \<not> isValidPage (AIPlatformHandler i GrokHandler_config)
         (fresh_page ''grok.com'' ''https://grok.com/other/path'' st)"
  by (simp add: isValidPage_def AIPlatformHandler_def GrokHandler_config_def fresh_page_def
        grok_home_def)

section \<open>Properties of the platform handler\<close>

lemma AIPlatformHandler_initialize_on_current:
  assumes "isCurrentWebsite h p"
  shows "AIPlatformHandler_initialize h p
     = (True,
        if readyState p = ''complete''
        then (snd (setFeatureEnabled h False p))
               \<lparr>started_calls := started_calls p @ [RunWithDelays (hid h)]\<rparr>
        else (snd (setFeatureEnabled h False p))
               \<lparr>load_listeners := load_listeners p @ [RunWithDelays (hid h)]\<rparr>)"
  using assms
  by (cases "storage_writable (localStorage p)")
     (simp_all add: AIPlatformHandler_initialize_def Let_def setFeatureEnabled_def
        setStorageItem_ok setStorageItem_fails)

text \<open>
  C6, as the specification states it, for every handler: \<open>initialize()\<close> first forces the
  flag to false and then starts the scheduler, at once or on \<open>load\<close>. The handler of Google
  AI Studio has its own \<open>initialize()\<close>: called on a page of its site, with the document
  complete and the flag stored as \<open>"true"\<close>, it returns \<open>undefined\<close>, leaves the flag
  \<open>"true"\<close>, starts no scheduler and adds no \<open>load\<close> listener; it only installs its observer.
\<close>

theorem GoogleAIStudio_initialize_only_observes:
  "isCurrentWebsite (GoogleAIStudioHandler 6) aistudio_page
   \<and> readyState aistudio_page = ''complete''
   \<and> fst (initialize (GoogleAIStudioHandler 6) aistudio_page) = Undefined
   \<and> items (localStorage (snd (initialize (GoogleAIStudioHandler 6) aistudio_page)))
        ''googleaistudio-menus-enabled'' = Some ''true''
   \<and> started_calls (snd (initialize (GoogleAIStudioHandler 6) aistudio_page)) = []
   \<and> load_listeners (snd (initialize (GoogleAIStudioHandler 6) aistudio_page)) = []
   \<and> observers (snd (initialize (GoogleAIStudioHandler 6) aistudio_page)) = [6]"
  by (simp add: initialize_def GoogleAIStudioHandler_def GoogleAIStudio_initialize_def
        GoogleAIStudio_config_def aistudio_page_def fresh_page_def isCurrentWebsite_def
        isValidPage_def)

text \<open>
  C6, amended: for every handler that inherits \<open>AIPlatformHandler.initialize\<close> (every
  handler but Google AI Studio's), when \<open>isCurrentWebsite()\<close> holds, \<open>initialize()\<close> resolves
  to true and first writes the flag as false (the page it leaves is the one
  \<open>setFeatureEnabled(false)\<close> leaves, but for the call started or the listener added). If
  the document's \<open>readyState\<close> is \<open>"complete"\<close> it then starts \<open>runWithDelays\<close> at once and
  adds no listener; otherwise it adds \<open>runWithDelays\<close> as a listener of the \<open>load\<close> event and
  starts nothing. What is started, now or on \<open>load\<close>, is the scheduler with the handler's
  \<open>enableFeatures\<close>, its \<open>defaultDelays\<close>, and \<open>isValidPage\<close> as the guard.
\<close>

theorem initialize_starts_scheduler:
  assumes "isCurrentWebsite h p" and "initialize_override h = None"
  shows "fst (initialize h p) = Resolves True
    \<and> snd (initialize h p)
        = (if readyState p = ''complete''
           then (snd (setFeatureEnabled h False p))
                  \<lparr>started_calls := started_calls p @ [RunWithDelays (hid h)]\<rparr>
           else (snd (setFeatureEnabled h False p))
                  \<lparr>load_listeners := load_listeners p @ [RunWithDelays (hid h)]\<rparr>)
    \<and> (storage_writable (localStorage p) \<longrightarrow>
          items (localStorage (snd (initialize h p))) (storageKey (config h)) = Some ''false'')
    \<and> (find (\<lambda>x. hid x = hid h) hs = Some h \<longrightarrow>
          run_callback hs host (RunWithDelays (hid h)) q
            = Some (tryWithDelays (enableFeatures h) (defaultDelays (config h))
                 (Some (isValidPage h)) host q))"
  using assms
  by (cases "storage_writable (localStorage p)")
     (simp_all add: initialize_def AIPlatformHandler_initialize_on_current setFeatureEnabled_def
        setStorageItem_ok setStorageItem_fails runWithDelays_def)

theorem initialize_starts_scheduler_witness:
  "isCurrentWebsite (AIPlatformHandler 7 x_test_config)
     (fresh_page ''x.test'' ''https://x.test/chat'' ''complete'')
   \<and> fst (initialize (AIPlatformHandler 7 x_test_config)
        (fresh_page ''x.test'' ''https://x.test/chat'' ''complete'')) = Resolves True
   \<and> started_calls (snd (initialize (AIPlatformHandler 7 x_test_config)
        (fresh_page ''x.test'' ''https://x.test/chat'' ''complete''))) = [RunWithDelays 7]
   \<and> load_listeners (snd (initialize (AIPlatformHandler 7 x_test_config)
        (fresh_page ''x.test'' ''https://x.test/chat'' ''complete''))) = []
   \<and> isCurrentWebsite (AIPlatformHandler 7 x_test_config)
     (fresh_page ''x.test'' ''https://x.test/chat'' ''loading'')
   \<and> started_calls (snd (initialize (AIPlatformHandler 7 x_test_config)
        (fresh_page ''x.test'' ''https://x.test/chat'' ''loading''))) = []
   \<and> load_listeners (snd (initialize (AIPlatformHandler 7 x_test_config)
        (fresh_page ''x.test'' ''https://x.test/chat'' ''loading''))) = [RunWithDelays 7]
   \<and> items (localStorage (snd (initialize (AIPlatformHandler 7 x_test_config)
        (fresh_page ''x.test'' ''https://x.test/chat'' ''loading'')))) ''x-enabled'' = Some ''false''
   \<and> run_callback [AIPlatformHandler 7 x_test_config] idle_host (RunWithDelays 7)
        (fresh_page ''x.test'' ''https://x.test/chat'' ''complete'')
      = Some (tryWithDelays base_enableFeatures [100, 200]
           (Some (isValidPage (AIPlatformHandler 7 x_test_config))) idle_host
           (fresh_page ''x.test'' ''https://x.test/chat'' ''complete''))
   \<and> trace (tryWithDelays base_enableFeatures [100, 200]
           (Some (isValidPage (AIPlatformHandler 7 x_test_config))) idle_host
           (fresh_page ''x.test'' ''https://x.test/chat'' ''complete''))
      = [GuardChecked True,
         Slept 100, Invoked (Thrown ''enableFeatures must be implemented by subclass''),
         ErrorLogged 100 ''enableFeatures must be implemented by subclass'',
         Slept 200, Invoked (Thrown ''enableFeatures must be implemented by subclass''),
         ErrorLogged 200 ''enableFeatures must be implemented by subclass'']"
proof -
  let ?h = "AIPlatformHandler 7 x_test_config"
  let ?c = "fresh_page ''x.test'' ''https://x.test/chat'' ''complete''"
  let ?l = "fresh_page ''x.test'' ''https://x.test/chat'' ''loading''"
  have c: "isCurrentWebsite ?h ?c" and l: "isCurrentWebsite ?h ?l"
    by (simp_all add: isCurrentWebsite_def isValidPage_def AIPlatformHandler_def
          x_test_config_def fresh_page_def)
  have o: "initialize_override ?h = None"
    by (simp add: AIPlatformHandler_def)
  have k: "storageKey (config ?h) = ''x-enabled''" "hid ?h = 7"
    "enableFeatures ?h = base_enableFeatures" "defaultDelays (config ?h) = [100, 200]"
    by (simp_all add: AIPlatformHandler_def x_test_config_def)
  have p: "readyState ?c = ''complete''" "readyState ?l = ''loading''"
    "started_calls ?c = []" "load_listeners ?c = []"
    "started_calls ?l = []" "load_listeners ?l = []"
    "storage_writable (localStorage ?l)"
    by (simp_all add: fresh_page_def storage_writable_def)
  have s: "started_calls (snd (setFeatureEnabled ?h False ?c)) = []"
    "load_listeners (snd (setFeatureEnabled ?h False ?c)) = []"
    "started_calls (snd (setFeatureEnabled ?h False ?l)) = []"
    "load_listeners (snd (setFeatureEnabled ?h False ?l)) = []"
    by (simp_all add: setFeatureEnabled_def setStorageItem_def setItem_def fresh_page_def)
  have f: "find (\<lambda>x. hid x = hid ?h) [?h] = Some ?h"
    by simp
  note at_c = initialize_starts_scheduler [OF c o, where hs = "[?h]" and host = idle_host and q = ?c]
  note at_l = initialize_starts_scheduler [OF l o, where hs = "[?h]" and host = idle_host and q = ?l]
  have rc: "fst (initialize ?h ?c) = Resolves True"
    using at_c by blast
  have ic: "snd (initialize ?h ?c)
            = (snd (setFeatureEnabled ?h False ?c))\<lparr>started_calls := [RunWithDelays 7]\<rparr>"
    using at_c p k by simp
  have il: "snd (initialize ?h ?l)
            = (snd (setFeatureEnabled ?h False ?l))\<lparr>load_listeners := [RunWithDelays 7]\<rparr>"
    using at_l p k by simp
  have fl: "items (localStorage (snd (initialize ?h ?l))) ''x-enabled'' = Some ''false''"
    using at_l p(7) unfolding k by blast
  have cb: "run_callback [?h] idle_host (RunWithDelays 7) ?c
            = Some (tryWithDelays base_enableFeatures [100, 200] (Some (isValidPage ?h)) idle_host ?c)"
    using at_c f unfolding k by blast
  have v: "isValidPage ?h ?c"
    using c by (simp add: isCurrentWebsite_def)
  have tr: "trace (tryWithDelays base_enableFeatures [100, 200] (Some (isValidPage ?h)) idle_host ?c)
      = [GuardChecked True,
         Slept 100, Invoked (Thrown ''enableFeatures must be implemented by subclass''),
         ErrorLogged 100 ''enableFeatures must be implemented by subclass'',
         Slept 200, Invoked (Thrown ''enableFeatures must be implemented by subclass''),
         ErrorLogged 200 ''enableFeatures must be implemented by subclass'']"
    using v by (simp add: tryWithDelays_def base_enableFeatures_def waitFor_def idle_host_def)
  have "started_calls (snd (initialize ?h ?c)) = [RunWithDelays 7]"
    and "load_listeners (snd (initialize ?h ?c)) = []"
    and "started_calls (snd (initialize ?h ?l)) = []"
    and "load_listeners (snd (initialize ?h ?l)) = [RunWithDelays 7]"
    unfolding ic il by (simp_all add: s)
  with c l rc fl cb tr show ?thesis
    by blast
qed

section \<open>Properties of the observer of \<^verbatim>\<open>part_002\<close>\<close>






text \<open>
  A handler with Google AI Studio's \<open>initialize()\<close> ends the scan: on a page of its site the
  observer callback installs that handler's observer and leaves with a \<open>TypeError\<close>, and
  the handlers after it in the array are not looked at.
\<close>

lemma observer_callback_TypeError:
  "observer_callback (GoogleAIStudioHandler 6 # hs) (''https://aistudio.google.com/'', aistudio_page)
   = (Some TypeError, ''https://aistudio.google.com/prompts/new_chat'',
      aistudio_page\<lparr>observers := [6]\<rparr>)"
  by (simp add: observer_callback_def initialize_def GoogleAIStudioHandler_def
        GoogleAIStudio_initialize_def GoogleAIStudio_config_def aistudio_page_def fresh_page_def
        isCurrentWebsite_def isValidPage_def Let_def)




section \<open>Properties of the watcher of the logic.js in src/chrome/background.js\<close>

lemma getHandler_currentUrl:
  "getHandlerForCurrentPage (st\<lparr>currentUrl := u\<rparr>) = getHandlerForCurrentPage st"
  by (simp add: getHandlerForCurrentPage_def Let_def cong: option.case_cong)

lemma handleUrlChange_switch:
  assumes "loc_href st \<noteq> currentUrl st" and "getHandlerForCurrentPage st = Some h"
    and "currentHandler st \<noteq> Some h"
  shows "handleUrlChange st =
     init h ((case currentHandler st of
                Some c \<Rightarrow> cleanup c (st\<lparr>currentUrl := loc_href st\<rparr>)
              | None \<Rightarrow> st\<lparr>currentUrl := loc_href st\<rparr>)\<lparr>currentHandler := Some h\<rparr>)"
  using assms by (auto simp add: handleUrlChange_def Let_def getHandler_currentUrl)

lemma handleUrlChange_keep:
  assumes "loc_href st \<noteq> currentUrl st"
    and "getHandlerForCurrentPage st = None \<or> getHandlerForCurrentPage st = currentHandler st"
  shows "handleUrlChange st = st\<lparr>currentUrl := loc_href st\<rparr>"
  using assms
  by (auto simp add: handleUrlChange_def Let_def getHandler_currentUrl split: option.splits)

lemma handleUrlChange_keeps_only_current:
  assumes "only_current_active st"
  shows "only_current_active (handleUrlChange st)"
  using assms
  by (auto simp add: handleUrlChange_def Let_def only_current_active_def init_def cleanup_def
        getHandler_currentUrl split: option.splits)

lemma history_calls_keep_only_current:
  assumes "only_current_active st"
  shows "only_current_active (pushState url st) \<and> only_current_active (replaceState url st)"
proof -
  from assms have "only_current_active (st\<lparr>loc_href := url\<rparr>)"
    by (simp add: only_current_active_def)
  then show ?thesis
    by (simp add: pushState_def replaceState_def handleUrlChange_keeps_only_current)
qed

lemma loaded_only_current: "only_current_active (loaded host url)"
  by (simp add: only_current_active_def loaded_def)

text \<open>
  This other logic.js does keep a current handler. On a URL change seen by
  \<open>handleUrlChange\<close>, a handler of the page that is not the current one replaces it:
  \<open>cleanup\<close> resets the previous handler's \<open>initialized\<close> flag, the new one becomes current
  and is initialized, and its \<open>enableFeatures\<close> starts. If no handler but the current one
  was initialized before, the same holds after.
\<close>

lemma handleUrlChange_switches_handler:
  assumes "loc_href st \<noteq> currentUrl st" and "only_current_active st"
  shows "currentUrl (handleUrlChange st) = loc_href st
    \<and> (\<forall>h. getHandlerForCurrentPage st = Some h \<and> currentHandler st \<noteq> Some h \<longrightarrow>
          currentHandler (handleUrlChange st) = Some h
          \<and> initialized (handleUrlChange st) h
          \<and> enabling (handleUrlChange st) = enabling st @ [h]
          \<and> (\<forall>c. currentHandler st = Some c \<longrightarrow> \<not> initialized (handleUrlChange st) c))
    \<and> (getHandlerForCurrentPage st = None \<or> getHandlerForCurrentPage st = currentHandler st \<longrightarrow>
          handleUrlChange st = st\<lparr>currentUrl := loc_href st\<rparr>)
    \<and> only_current_active (handleUrlChange st)"
proof -
  have a: "currentUrl (handleUrlChange st) = loc_href st"
    using assms(1)
    by (auto simp add: handleUrlChange_def Let_def init_def cleanup_def split: option.splits)
  have b: "currentHandler (handleUrlChange st) = Some h
          \<and> initialized (handleUrlChange st) h
          \<and> enabling (handleUrlChange st) = enabling st @ [h]
          \<and> (\<forall>c. currentHandler st = Some c \<longrightarrow> \<not> initialized (handleUrlChange st) c)"
    if "getHandlerForCurrentPage st = Some h" and "currentHandler st \<noteq> Some h" for h
  proof -
    from assms(2) that(2) have "\<not> initialized st h"
      by (auto simp: only_current_active_def)
    then show ?thesis
      unfolding handleUrlChange_switch [OF assms(1) that]
      using that(2) by (auto simp add: init_def cleanup_def split: option.splits)
  qed
  have c: "only_current_active (handleUrlChange st)"
    by (rule handleUrlChange_keeps_only_current [OF assms(2)])
  from a b c handleUrlChange_keep [OF assms(1)] show ?thesis
    by blast
qed

lemma handleUrlChange_switches_handler_instance:
  "loc_href subdomain_then_exact \<noteq> currentUrl subdomain_then_exact
   \<and> only_current_active subdomain_then_exact
   \<and> currentHandler subdomain_then_exact = Some 1
   \<and> getHandlerForCurrentPage subdomain_then_exact = Some 2
   \<and> currentHandler (handleUrlChange subdomain_then_exact) = Some 2
   \<and> initialized (handleUrlChange subdomain_then_exact) 2
   \<and> \<not> initialized (handleUrlChange subdomain_then_exact) 1
   \<and> enabling (handleUrlChange subdomain_then_exact) = [1, 2]"
proof -
  let ?s = subdomain_then_exact
  have u: "loc_href ?s \<noteq> currentUrl ?s"
    by (simp add: subdomain_then_exact_def registerPlatformHandler_def loaded_def)
  have i: "only_current_active ?s"
    by (simp add: subdomain_then_exact_def registerPlatformHandler_def loaded_def
          only_current_active_def)
  have c: "currentHandler ?s = Some 1" and e: "enabling ?s = [1]"
    by (simp_all add: subdomain_then_exact_def registerPlatformHandler_def loaded_def)
  have g: "getHandlerForCurrentPage ?s = Some 2"
    by (simp add: subdomain_then_exact_def registerPlatformHandler_def loaded_def
          getHandlerForCurrentPage_def)
  have n: "currentHandler ?s \<noteq> Some 2"
    by (simp add: c)
  from handleUrlChange_switches_handler [OF u i] g n c
  have "currentHandler (handleUrlChange ?s) = Some 2
      \<and> initialized (handleUrlChange ?s) 2
      \<and> enabling (handleUrlChange ?s) = enabling ?s @ [2]
      \<and> \<not> initialized (handleUrlChange ?s) 1"
    by blast
  with u i c g e show ?thesis
    by simp
qed

text \<open>
  \<open>initExtension\<close> does not keep that condition, so this watcher does not guarantee one
  active handler either. On \<open>sub.grok.com\<close>, let handler 1 register for \<open>grok.com\<close>, the URL
  change to \<open>/a\<close> and handler 2 register for \<open>sub.grok.com\<close> while \<open>initExtension\<close> waits:
  when it resumes it makes handler 2 current and initializes it without cleaning up
  handler 1, and after the next URL change both are still initialized.
\<close>

lemma initExtension_two_initialized:
  "currentHandler (during_wait (loaded ''sub.grok.com'' ''https://sub.grok.com/'')) = Some 1
   \<and> only_current_active (during_wait (loaded ''sub.grok.com'' ''https://sub.grok.com/''))
   \<and> currentHandler (pushState ''https://sub.grok.com/b''
        (initExtension during_wait (loaded ''sub.grok.com'' ''https://sub.grok.com/''))) = Some 2
   \<and> initialized (pushState ''https://sub.grok.com/b''
        (initExtension during_wait (loaded ''sub.grok.com'' ''https://sub.grok.com/''))) 1
   \<and> initialized (pushState ''https://sub.grok.com/b''
        (initExtension during_wait (loaded ''sub.grok.com'' ''https://sub.grok.com/''))) 2
   \<and> \<not> only_current_active (pushState ''https://sub.grok.com/b''
        (initExtension during_wait (loaded ''sub.grok.com'' ''https://sub.grok.com/'')))"
proof -
  let ?s0 = "loaded ''sub.grok.com'' ''https://sub.grok.com/''"
  have d: "during_wait ?s0
     = \<lparr>platformHandlers = [(''grok.com'', 1), (''sub.grok.com'', 2)],
        initialized = (\<lambda>h. False)(1 := True), currentUrl = ''https://sub.grok.com/a'',
        currentHandler = Some 1, loc_href = ''https://sub.grok.com/a'',
        loc_hostname = ''sub.grok.com'', enabling = [1]\<rparr>"
    by (simp add: during_wait_def loaded_def registerPlatformHandler_def pushState_def
          handleUrlChange_def getHandlerForCurrentPage_def init_def Let_def suffix_def)
  have p: "detectPlatform ?s0 = Some ''grok.com''"
    by (simp add: detectPlatform_def SUPPORTED_PLATFORMS_def loaded_def suffix_def)
  have e: "initExtension during_wait ?s0
     = \<lparr>platformHandlers = [(''grok.com'', 1), (''sub.grok.com'', 2)],
        initialized = ((\<lambda>h. False)(1 := True))(2 := True), currentUrl = ''https://sub.grok.com/a'',
        currentHandler = Some 2, loc_href = ''https://sub.grok.com/a'',
        loc_hostname = ''sub.grok.com'', enabling = [1, 2]\<rparr>"
    by (simp add: initExtension_def p d getHandlerForCurrentPage_def init_def Let_def)
  have f: "pushState ''https://sub.grok.com/b'' (initExtension during_wait ?s0)
     = \<lparr>platformHandlers = [(''grok.com'', 1), (''sub.grok.com'', 2)],
        initialized = ((\<lambda>h. False)(1 := True))(2 := True), currentUrl = ''https://sub.grok.com/b'',
        currentHandler = Some 2, loc_href = ''https://sub.grok.com/b'',
        loc_hostname = ''sub.grok.com'', enabling = [1, 2]\<rparr>"
    unfolding e by (simp add: pushState_def handleUrlChange_def getHandlerForCurrentPage_def Let_def)
  have n: "\<not> only_current_active (pushState ''https://sub.grok.com/b'' (initExtension during_wait ?s0))"
    unfolding f by (auto simp add: only_current_active_def)
  have o: "only_current_active (during_wait ?s0)"
    unfolding d by (simp add: only_current_active_def)
  from n o show ?thesis
    unfolding f by (simp add: d)
qed

end
